theory Spec2Isabelle
  imports Complex_Main "HOL-Library.Word"
begin

unbundle bit_operations_syntax

section \<open>Client audio utilities (audioUtils.ts)\<close>

subsection \<open>PCM encoding: \<open>float32ToInt16Base64\<close>\<close>

text \<open>
  A JavaScript number read from a \<open>Float32Array\<close> is a finite binary fraction, an
  infinity or NaN. The finite values are rationals; the sign of zero plays no part below
  (\<open>-0 < 0\<close> is false and \<open>-0\<close> is stored as \<open>0\<close>), so both zeros are \<open>Fin 0\<close>.
  The only arithmetic of the function is a product of a clamped sample (at most 24
  significant bits, magnitude at most 1) with \<open>0x8000\<close> or \<open>0x7fff\<close>; that product has
  at most 39 significant bits and is exact in binary64, so rational arithmetic computes
  what the engine computes.
\<close>

datatype jsnum = Fin rat | PInf | NInf | NaN

fun js_lt :: "jsnum \<Rightarrow> jsnum \<Rightarrow> bool" where
  "js_lt NaN _ = False"
| "js_lt _ NaN = False"
| "js_lt (Fin a) (Fin b) = (a < b)"
| "js_lt NInf NInf = False"
| "js_lt NInf _ = True"
| "js_lt _ NInf = False"
| "js_lt PInf _ = False"
| "js_lt _ PInf = True"

definition Math_min :: "jsnum \<Rightarrow> jsnum \<Rightarrow> jsnum" where
  "Math_min a b = (if a = NaN \<or> b = NaN then NaN else if js_lt b a then b else a)"

definition Math_max :: "jsnum \<Rightarrow> jsnum \<Rightarrow> jsnum" where
  "Math_max a b = (if a = NaN \<or> b = NaN then NaN else if js_lt a b then b else a)"

text \<open>Multiplication by a positive finite constant, the only products the function forms.\<close>

fun js_times :: "jsnum \<Rightarrow> rat \<Rightarrow> jsnum" where
  "js_times (Fin a) k = Fin (a * k)"
| "js_times x k = x"

definition js_trunc :: "rat \<Rightarrow> int" where
  "js_trunc r = (if r < 0 then \<lceil>r\<rceil> else \<lfloor>r\<rfloor>)"

text \<open>
  A store into an \<open>Int16Array\<close> converts with ToInt16: NaN and the infinities become 0,
  a finite number is truncated towards zero and reduced modulo \<open>2^16\<close>
  (\<open>word_of_int\<close> wraps; \<open>sint\<close> reads the element back).
\<close>

fun ToInt16 :: "jsnum \<Rightarrow> 16 word" where
  "ToInt16 (Fin r) = word_of_int (js_trunc r)"
| "ToInt16 _ = 0"

definition encode_sample :: "jsnum \<Rightarrow> 16 word" where
  "encode_sample x =
     (let s = Math_max (Fin (- 1)) (Math_min (Fin 1) x)
      in ToInt16 (if js_lt s (Fin 0) then js_times s 32768 else js_times s 32767))"

definition int16Array_of :: "jsnum list \<Rightarrow> 16 word list" where
  "int16Array_of float32Array = map encode_sample float32Array"

text \<open>
  \<open>new Uint8Array(int16Array.buffer)\<close> views the samples as bytes in the platform's
  byte order, little-endian on every platform the client runs on; each byte becomes one
  character of the binary string handed to \<open>btoa\<close>.
\<close>

definition int16_bytes :: "16 word \<Rightarrow> 8 word list" where
  "int16_bytes w = [ucast w, ucast (drop_bit 8 w)]"

definition base64_alphabet :: string where
  "base64_alphabet = ''ABCDEFGHIJKLMNOPQRSTUVWXYZabcdefghijklmnopqrstuvwxyz0123456789+/''"

definition b64 :: "nat \<Rightarrow> char" where
  "b64 n = base64_alphabet ! (n mod 64)"

fun btoa :: "8 word list \<Rightarrow> string" where
  "btoa [] = []"
| "btoa [a] =
     [b64 (unat a div 4), b64 ((unat a mod 4) * 16), CHR ''='', CHR ''='']"
| "btoa [a, b] =
     [b64 (unat a div 4), b64 ((unat a mod 4) * 16 + unat b div 16),
      b64 ((unat b mod 16) * 4), CHR ''='']"
| "btoa (a # b # c # rest) =
     [b64 (unat a div 4), b64 ((unat a mod 4) * 16 + unat b div 16),
      b64 ((unat b mod 16) * 4 + unat c div 64), b64 (unat c mod 64)] @ btoa rest"

definition float32ToInt16Base64 :: "jsnum list \<Rightarrow> string" where
  "float32ToInt16Base64 float32Array = btoa (concat (map int16_bytes (int16Array_of float32Array)))"

text \<open>
  The value the source comment promises for a sample: the sample clamped to \<open>[-1, 1]\<close>,
  scaled by \<open>0x8000\<close> when negative and by \<open>0x7fff\<close> otherwise, rounded towards zero.
  For NaN the clamp is NaN and the stored element is 0.
\<close>

fun clamp_unit :: "jsnum \<Rightarrow> rat" where
  "clamp_unit (Fin r) = max (- 1) (min 1 r)"
| "clamp_unit PInf = 1"
| "clamp_unit NInf = - 1"
| "clamp_unit NaN = 0"

definition pcm16_reference :: "jsnum \<Rightarrow> int" where
  "pcm16_reference x =
     (if clamp_unit x < 0 then js_trunc (clamp_unit x * 32768) else js_trunc (clamp_unit x * 32767))"

text \<open>
  What the receiver of the string reads. The backend base64-decodes the string and reads
  the bytes as 16-bit little-endian PCM; \<open>atob_reference\<close> is the standard base64
  decoding (the alphabet position of each character, four characters to three bytes,
  \<open>=\<close> for padding), \<open>int16_of_bytes\<close> joins each pair of bytes, low byte first, and
  \<open>pcm16_samples\<close> is the list of signed samples that the string carries.
\<close>

fun index_of :: "'a \<Rightarrow> 'a list \<Rightarrow> nat" where
  "index_of x [] = 0"
| "index_of x (y # ys) = (if x = y then 0 else Suc (index_of x ys))"

definition b64_index :: "char \<Rightarrow> nat" where
  "b64_index c = index_of c base64_alphabet"

fun atob_reference :: "string \<Rightarrow> 8 word list" where
  "atob_reference (a # b # c # d # rest) =
     (if c = CHR ''='' then [of_nat (b64_index a * 4 + b64_index b div 16)]
      else if d = CHR ''=''
      then [of_nat (b64_index a * 4 + b64_index b div 16),
            of_nat ((b64_index b mod 16) * 16 + b64_index c div 4)]
      else [of_nat (b64_index a * 4 + b64_index b div 16),
            of_nat ((b64_index b mod 16) * 16 + b64_index c div 4),
            of_nat ((b64_index c mod 4) * 64 + b64_index d)])
     @ atob_reference rest"
| "atob_reference _ = []"

fun int16_of_bytes :: "8 word list \<Rightarrow> 16 word list" where
  "int16_of_bytes (lo # hi # rest) = (ucast lo OR push_bit 8 (ucast hi)) # int16_of_bytes rest"
| "int16_of_bytes _ = []"

definition pcm16_samples :: "string \<Rightarrow> int list" where
  "pcm16_samples s = map sint (int16_of_bytes (atob_reference s))"

lemma clamp_unit_range: "- 1 \<le> clamp_unit x \<and> clamp_unit x \<le> 1"
  by (cases x) auto

lemma pcm16_reference_range: "- 32768 \<le> pcm16_reference x \<and> pcm16_reference x \<le> 32767"
proof -
  define c where "c = clamp_unit x"
  have c: "- 1 \<le> c" "c \<le> 1"
    using clamp_unit_range [of x] by (simp_all add: c_def)
  show ?thesis
  proof (cases "c < 0")
    case True
    have "- 32768 \<le> c * 32768" using c by simp
    then have lo: "- 32768 \<le> \<lceil>c * 32768\<rceil>"
      by (simp add: le_ceiling_iff)
    have "c * 32768 \<le> 0" using True by simp
    then have "\<lceil>c * 32768\<rceil> \<le> 0"
      by (simp add: ceiling_le_iff)
    with lo True show ?thesis
      by (simp add: pcm16_reference_def js_trunc_def c_def [symmetric] mult_less_0_iff)
  next
    case False
    then have "0 \<le> c * 32767" by simp
    then have lo: "0 \<le> \<lfloor>c * 32767\<rfloor>" by simp
    have "c * 32767 \<le> 32767" using c by simp
    then have "\<lfloor>c * 32767\<rfloor> \<le> 32767"
      by (simp add: floor_le_iff)
    with lo False show ?thesis
      by (simp add: pcm16_reference_def js_trunc_def c_def [symmetric] mult_less_0_iff)
  qed
qed

lemma sint_int16_of_int:
  "- 32768 \<le> v \<Longrightarrow> v \<le> 32767 \<Longrightarrow> sint (word_of_int v :: 16 word) = v"
  by (simp add: sint_sbintrunc' signed_take_bit_int_eq_self)

lemma clamped_sample:
  "Math_max (Fin (- 1)) (Math_min (Fin 1) x) = (if x = NaN then NaN else Fin (clamp_unit x))"
  by (cases x) (auto simp: Math_max_def Math_min_def)

lemma encode_sample_word: "encode_sample x = word_of_int (pcm16_reference x)"
proof (cases "x = NaN")
  case True
  then show ?thesis
    by (simp add: encode_sample_def clamped_sample pcm16_reference_def js_trunc_def)
next
  case False
  then show ?thesis
    by (simp add: encode_sample_def clamped_sample pcm16_reference_def Let_def)
qed

lemma index_of_nth: "distinct xs \<Longrightarrow> n < length xs \<Longrightarrow> index_of (xs ! n) xs = n"
proof (induction xs arbitrary: n)
  case Nil
  then show ?case by simp
next
  case (Cons y ys)
  then show ?case by (cases n) auto
qed

lemma alphabet_distinct: "distinct base64_alphabet"
  by (simp add: base64_alphabet_def)

lemma alphabet_length: "length base64_alphabet = 64"
  by (simp add: base64_alphabet_def)

lemma b64_index_b64: "n < 64 \<Longrightarrow> b64_index (b64 n) = n"
  by (simp add: b64_index_def b64_def index_of_nth alphabet_distinct alphabet_length)

lemma b64_not_pad: "b64 n \<noteq> CHR ''=''"
proof -
  have "CHR ''='' \<notin> set base64_alphabet" by (simp add: base64_alphabet_def)
  moreover have "b64 n \<in> set base64_alphabet"
    by (simp add: b64_def alphabet_length)
  ultimately show ?thesis by metis
qed

lemma int16_of_bytes_int16_bytes:
  "int16_of_bytes (int16_bytes w @ rest) = w # int16_of_bytes rest"
  apply (simp add: int16_bytes_def)
  apply (rule bit_word_eqI)
  apply (auto simp: bit_simps)
  done

lemma sextet_bounds:
  fixes x y z :: nat
  assumes "x < 256" "y < 256" "z < 256"
  shows "x div 4 < 64" "(x mod 4) * 16 + y div 16 < 64" "(y mod 16) * 4 + z div 64 < 64"
    "(x mod 4) * 16 < 64" "(y mod 16) * 4 < 64" "z mod 64 < 64"
  using assms by auto

lemma octets_of_sextets:
  fixes x y z :: nat
  assumes "y < 256" "z < 256"
  shows "x div 4 * 4 + ((x mod 4) * 16 + y div 16) div 16 = x"
    "((x mod 4) * 16 + y div 16) mod 16 * 16 + ((y mod 16) * 4 + z div 64) div 4 = y"
    "((y mod 16) * 4 + z div 64) mod 4 * 64 + z mod 64 = z"
    "x div 4 * 4 + ((x mod 4) * 16) div 16 = x"
    "((x mod 4) * 16 + y div 16) mod 16 * 16 + ((y mod 16) * 4) div 4 = y"
  using assms by auto

lemma unat_byte: "unat (a :: 8 word) < 256"
  using unsigned_less [of a] by simp

lemma b64_index_sextets:
  fixes a b c :: "8 word"
  shows "b64_index (b64 (unat a div 4)) = unat a div 4"
    "b64_index (b64 ((unat a mod 4) * 16 + unat b div 16)) = (unat a mod 4) * 16 + unat b div 16"
    "b64_index (b64 ((unat b mod 16) * 4 + unat c div 64)) = (unat b mod 16) * 4 + unat c div 64"
    "b64_index (b64 ((unat a mod 4) * 16)) = (unat a mod 4) * 16"
    "b64_index (b64 ((unat b mod 16) * 4)) = (unat b mod 16) * 4"
    "b64_index (b64 (unat c mod 64)) = unat c mod 64"
  using sextet_bounds [OF unat_byte [of a] unat_byte [of b] unat_byte [of c]]
  by (simp_all add: b64_index_b64)

lemma atob_btoa: "atob_reference (btoa bs) = bs"
proof (induction bs rule: btoa.induct)
  case 1
  then show ?case by simp
next
  case (2 a)
  show ?case
    using octets_of_sextets(4) [where x = "unat a", OF unat_byte unat_byte]
    by (simp add: b64_index_sextets)
next
  case (3 a b)
  show ?case
    using octets_of_sextets(1,5) [where x = "unat a", OF unat_byte [of b] unat_byte [of b]]
    by (simp add: b64_index_sextets b64_not_pad)
next
  case (4 a b c rest)
  show ?case
    using octets_of_sextets(1,2) [where x = "unat a", OF unat_byte [of b] unat_byte [of c]]
      octets_of_sextets(3) [OF unat_byte [of b] unat_byte [of c]] 4
    by (simp add: b64_index_sextets b64_not_pad)
qed

lemma int16_of_bytes_concat:
  "int16_of_bytes (concat (map int16_bytes ws)) = ws"
  by (induction ws) (simp_all add: int16_of_bytes_int16_bytes)

text \<open>
  Claim C10. The string that \<open>float32ToInt16Base64\<close> returns is the base64 text of the
  little-endian bytes of one 16-bit value per sample, and the value is the sample clamped
  to \<open>[-1, 1]\<close>, times \<open>0x8000\<close> when negative and \<open>0x7fff\<close> otherwise, rounded towards
  zero. Read back from the string, every sample lies in \<open>[-32768, 32767]\<close>: the 16-bit
  store never wraps, a sample of 1 or more is carried as 32767 and a sample of -1 or less
  as -32768 (the infinities included; NaN is carried as 0).
\<close>

theorem float32ToInt16Base64_saturates:
  "float32ToInt16Base64 xs
     = btoa (concat (map (\<lambda>x. int16_bytes (word_of_int (pcm16_reference x))) xs))
   \<and> pcm16_samples (float32ToInt16Base64 xs) = map pcm16_reference xs
   \<and> map sint (int16Array_of xs) = map pcm16_reference xs
   \<and> list_all (\<lambda>v. - 32768 \<le> v \<and> v \<le> 32767) (pcm16_samples (float32ToInt16Base64 xs))
   \<and> (1 \<le> r \<longrightarrow> pcm16_samples (float32ToInt16Base64 [Fin r]) = [32767])
   \<and> (q \<le> - 1 \<longrightarrow> pcm16_samples (float32ToInt16Base64 [Fin q]) = [- 32768])"
proof -
  have s: "sint (encode_sample x) = pcm16_reference x" for x
    using pcm16_reference_range [of x]
    by (simp add: encode_sample_word sint_int16_of_int)
  have enc: "float32ToInt16Base64 ys
      = btoa (concat (map (\<lambda>x. int16_bytes (word_of_int (pcm16_reference x))) ys))" for ys
    by (simp add: float32ToInt16Base64_def int16Array_of_def encode_sample_word comp_def)
  have dec: "pcm16_samples (float32ToInt16Base64 ys) = map pcm16_reference ys" for ys
  proof -
    have "int16_of_bytes (atob_reference (float32ToInt16Base64 ys)) = int16Array_of ys"
      unfolding float32ToInt16Base64_def by (simp only: atob_btoa int16_of_bytes_concat)
    then show ?thesis
      by (simp add: pcm16_samples_def int16Array_of_def s)
  qed
  have rng: "list_all (\<lambda>v. - 32768 \<le> v \<and> v \<le> 32767) (map pcm16_reference xs)"
    by (induction xs) (simp_all add: pcm16_reference_range)
  have hi: "pcm16_reference (Fin r) = 32767" if "1 \<le> r"
    using that by (simp add: pcm16_reference_def js_trunc_def)
  have lo: "pcm16_reference (Fin q) = - 32768" if "q \<le> - 1"
    using that by (simp add: pcm16_reference_def js_trunc_def)
  show ?thesis
    using enc [of xs] dec [of xs] rng hi lo
    by (simp add: dec int16Array_of_def s)
qed

theorem float32ToInt16Base64_saturates_witness:
  "float32ToInt16Base64 [Fin (3 / 2), Fin (- 1 / 2), NInf, NaN, Fin (1 / 4), PInf]
     = ''/38AwACAAAD/H/9/''
   \<and> pcm16_samples (float32ToInt16Base64 [Fin (3 / 2), Fin (- 1 / 2), NInf, NaN, Fin (1 / 4), PInf])
     = [32767, - 16384, - 32768, 0, 8191, 32767]
   \<and> (1 :: rat) \<le> 3 / 2 \<and> pcm16_samples (float32ToInt16Base64 [Fin (3 / 2)]) = [32767]
   \<and> (- 2 :: rat) \<le> - 1 \<and> pcm16_samples (float32ToInt16Base64 [Fin (- 2)]) = [- 32768]"
proof -
  have f: "\<lfloor>32767 / 4 :: rat\<rfloor> = 8191" by code_simp
  have b: "btoa (concat (map int16_bytes [32767, - 16384, - 32768, 0, 8191, 32767]))
      = ''/38AwACAAAD/H/9/''" by code_simp
  have d: "pcm16_samples ''/38AwACAAAD/H/9/'' = [32767, - 16384, - 32768, 0, 8191, 32767]"
    by code_simp
  show ?thesis
    using float32ToInt16Base64_saturates
      [of "[Fin (3 / 2), Fin (- 1 / 2), NInf, NaN, Fin (1 / 4), PInf]" "3 / 2" "- 2"] b d
    by (simp add: pcm16_reference_def js_trunc_def f)
qed

subsection \<open>Streaming playback: \<open>AudioPlayer\<close>\<close>

text \<open>
  The player owns a queue of decoded chunks and three browser objects: an audio element
  (created once in the constructor and never released), a \<open>MediaSource\<close> (replaced by
  every \<open>resetStream\<close>) and a \<open>SourceBuffer\<close> (created when the media source opens,
  \<open>null\<close> until then). Of the browser objects the model keeps what the class reads or
  writes. Calls of the browser that may throw are decided by the \<open>browser\<close> record.
\<close>

type_synonym bytes = "8 word list"

record SourceBuffer =
  updating :: bool
  appended :: "bytes list"

record AudioPlayer =
  queue :: "bytes list"
  isPlaying :: bool
  isFinalized :: bool
  onComplete :: "nat option"
  sourceBuffer :: "SourceBuffer option"
  mediaSource :: "nat option"
  streamEnded :: bool
  paused :: bool
  pendingPlay :: nat

record browser =
  atob :: "string \<Rightarrow> bytes option"
  appendBuffer_throws :: bool
  addSourceBuffer_throws :: bool
  endOfStream_throws :: bool

text \<open>
  \<open>resetStream\<close>: the element is paused and rewound, a buffer that is updating is
  aborted (an exception of \<open>abort\<close> is swallowed, and the buffer is dropped on the next
  line either way), and a fresh media source becomes the element's source.
\<close>

definition resetStream :: "AudioPlayer \<Rightarrow> AudioPlayer" where
  "resetStream p =
     p\<lparr>isPlaying := False, isFinalized := False, queue := [], paused := True,
       sourceBuffer := None,
       mediaSource := Some (case mediaSource p of None \<Rightarrow> 0 | Some n \<Rightarrow> Suc n),
       streamEnded := False\<rparr>"

definition new_AudioPlayer :: AudioPlayer where
  "new_AudioPlayer =
     resetStream \<lparr>queue = [], isPlaying = False, isFinalized = False, onComplete = None,
       sourceBuffer = None, mediaSource = None, streamEnded = False, paused = True,
       pendingPlay = 0\<rparr>"

definition flushQueue :: "browser \<Rightarrow> AudioPlayer \<Rightarrow> AudioPlayer" where
  "flushQueue b p =
     (case sourceBuffer p of
        None \<Rightarrow> p
      | Some sb \<Rightarrow>
          if mediaSource p = None then p
          else if updating sb then p
          else (case queue p of
                  [] \<Rightarrow> p
                | next # rest \<Rightarrow>
                    if appendBuffer_throws b then p\<lparr>queue := rest\<rparr>
                    else p\<lparr>queue := rest,
                           sourceBuffer := Some (sb\<lparr>updating := True,
                                                     appended := appended sb @ [next]\<rparr>)\<rparr>))"

text \<open>
  \<open>addChunk\<close> up to its \<open>await\<close>: an empty string or a missing media source returns at
  once; \<open>atob\<close> throws on a string that is not base64, which rejects the promise before
  anything is queued. The second component tells whether \<open>play()\<close> was called; the
  code after the \<open>await\<close> is \<open>playSettled\<close>.
\<close>

definition addChunk :: "browser \<Rightarrow> string \<Rightarrow> AudioPlayer \<Rightarrow> AudioPlayer" where
  "addChunk b base64Audio p =
     (if base64Audio = [] \<or> mediaSource p = None then p
      else (case atob b base64Audio of
              None \<Rightarrow> p
            | Some bts \<Rightarrow>
                let p1 = flushQueue b (p\<lparr>queue := queue p @ [bts]\<rparr>)
                in if \<not> isPlaying p1
                   then p1\<lparr>paused := False, pendingPlay := Suc (pendingPlay p1)\<rparr>
                   else p1))"

definition playSettled :: "bool \<Rightarrow> AudioPlayer \<Rightarrow> AudioPlayer" where
  "playSettled resolved p =
     (if pendingPlay p = 0 then p
      else if resolved then p\<lparr>pendingPlay := pendingPlay p - 1, isPlaying := True\<rparr>
      else p\<lparr>pendingPlay := pendingPlay p - 1\<rparr>)"

definition finalize :: "browser \<Rightarrow> AudioPlayer \<Rightarrow> AudioPlayer" where
  "finalize b p = flushQueue b (p\<lparr>isFinalized := True\<rparr>)"

definition stop :: "AudioPlayer \<Rightarrow> AudioPlayer" where
  "stop p = resetStream p"

definition setOnComplete :: "nat \<Rightarrow> AudioPlayer \<Rightarrow> AudioPlayer" where
  "setOnComplete callback p = p\<lparr>onComplete := Some callback\<rparr>"

text \<open>The three listeners. Only the listener of \<open>ended\<close> reads \<open>onComplete\<close>.\<close>

definition on_ended :: "AudioPlayer \<Rightarrow> AudioPlayer \<times> nat list" where
  "on_ended p =
     (p\<lparr>isPlaying := False\<rparr>, (case onComplete p of None \<Rightarrow> [] | Some cb \<Rightarrow> [cb]))"

definition on_sourceopen :: "browser \<Rightarrow> AudioPlayer \<Rightarrow> AudioPlayer" where
  "on_sourceopen b p =
     (if mediaSource p = None then p
      else if addSourceBuffer_throws b then p
      else p\<lparr>sourceBuffer := Some \<lparr>updating = False, appended = []\<rparr>\<rparr>)"

definition on_updateend :: "browser \<Rightarrow> AudioPlayer \<Rightarrow> AudioPlayer" where
  "on_updateend b p =
     (let p1 = flushQueue b p
      in if isFinalized p1 \<and> queue p1 = []
            \<and> (case sourceBuffer p1 of None \<Rightarrow> False | Some sb \<Rightarrow> \<not> updating sb)
            \<and> mediaSource p1 \<noteq> None \<and> \<not> endOfStream_throws b
         then p1\<lparr>streamEnded := True\<rparr> else p1)"

text \<open>
  Everything that can happen to a player: a call of one of its methods, or one of the
  browser's events. \<open>updateend\<close> is raised by the current source buffer when an append
  has been processed (the buffer stops updating first). The result carries the callbacks
  the step invoked.
\<close>

datatype player_event =
    CallResetStream | CallAddChunk string | CallFinalize | CallStop | CallSetOnComplete nat
  | PlaySettled bool | SourceOpen | UpdateEnd | Ended

fun player_step :: "browser \<Rightarrow> player_event \<Rightarrow> AudioPlayer \<Rightarrow> AudioPlayer \<times> nat list" where
  "player_step b CallResetStream p = (resetStream p, [])"
| "player_step b (CallAddChunk a) p = (addChunk b a p, [])"
| "player_step b CallFinalize p = (finalize b p, [])"
| "player_step b CallStop p = (stop p, [])"
| "player_step b (CallSetOnComplete cb) p = (setOnComplete cb p, [])"
| "player_step b (PlaySettled ok) p = (playSettled ok p, [])"
| "player_step b SourceOpen p = (on_sourceopen b p, [])"
| "player_step b UpdateEnd p =
     (on_updateend b
        (case sourceBuffer p of None \<Rightarrow> p
         | Some sb \<Rightarrow> p\<lparr>sourceBuffer := Some (sb\<lparr>updating := False\<rparr>)\<rparr>), [])"
| "player_step b Ended p = on_ended p"

subsection \<open>The client's use of the player (App.tsx)\<close>

text \<open>
  \<open>App\<close> keeps the player and the socket in refs. Of a server message only
  \<open>state_change\<close> and \<open>agent_audio_chunk\<close> reach the player; the other message types
  update what is displayed. The callback that \<open>App\<close> registers with \<open>setOnComplete\<close>
  sends \<open>playback_complete\<close> on the socket, when there is one. The socket is modelled
  by the list of messages sent on it.
\<close>

datatype turn_state = IDLE | LISTENING | SPECULATIVE | COMMITTED | SPEAKING

datatype client_message = Connect | AudioChunk string | Interrupt | PlaybackComplete

datatype server_message =
    StateChange turn_state turn_state
  | AgentAudioChunk string int bool
  | DisplayOnly

record App =
  playerRef :: "AudioPlayer option"
  wsRef :: "client_message list option"
  currentState :: turn_state

definition ws_send :: "client_message \<Rightarrow> App \<Rightarrow> App" where
  "ws_send m app =
     (case wsRef app of None \<Rightarrow> app | Some sent \<Rightarrow> app\<lparr>wsRef := Some (sent @ [m])\<rparr>)"

definition playback_complete_callback :: nat where
  "playback_complete_callback = 0"

definition init_player :: "App \<Rightarrow> App" where
  "init_player app =
     app\<lparr>playerRef := Some (setOnComplete playback_complete_callback new_AudioPlayer)\<rparr>"

definition on_agent_audio_chunk ::
  "browser \<Rightarrow> string \<Rightarrow> int \<Rightarrow> bool \<Rightarrow> AudioPlayer \<Rightarrow> AudioPlayer" where
  "on_agent_audio_chunk b audio chunk_index is_final p =
     (let p1 = (if chunk_index = 0 then resetStream p else p);
          p2 = (if audio \<noteq> [] \<and> \<not> is_final then addChunk b audio p1 else p1)
      in if is_final then finalize b p2 else p2)"

fun onmessage :: "browser \<Rightarrow> server_message \<Rightarrow> App \<Rightarrow> App" where
  "onmessage b (StateChange fromState toState) app =
     (let app1 = app\<lparr>currentState := toState\<rparr>
      in if fromState = SPEAKING \<and> toState = LISTENING
         then app1\<lparr>playerRef := map_option stop (playerRef app1)\<rparr> else app1)"
| "onmessage b (AgentAudioChunk audio chunk_index is_final) app =
     app\<lparr>playerRef := map_option (on_agent_audio_chunk b audio chunk_index is_final) (playerRef app)\<rparr>"
| "onmessage b DisplayOnly app = app"

definition handleInterrupt :: "App \<Rightarrow> App" where
  "handleInterrupt app = ws_send Interrupt (app\<lparr>playerRef := map_option stop (playerRef app)\<rparr>)"

definition run_callbacks :: "nat list \<Rightarrow> App \<Rightarrow> App" where
  "run_callbacks cbs app =
     fold (\<lambda>cb a. if cb = playback_complete_callback then ws_send PlaybackComplete a else a) cbs app"

datatype app_event =
    ServerMessage server_message
  | InterruptClicked
  | MicrophoneData "jsnum list"
  | PlayerEvent player_event

fun app_step :: "browser \<Rightarrow> app_event \<Rightarrow> App \<Rightarrow> App" where
  "app_step b (ServerMessage m) app = onmessage b m app"
| "app_step b InterruptClicked app = handleInterrupt app"
| "app_step b (MicrophoneData audioData) app =
     ws_send (AudioChunk (float32ToInt16Base64 audioData)) app"
| "app_step b (PlayerEvent e) app =
     (case playerRef app of
        None \<Rightarrow> app
      | Some p \<Rightarrow>
          let r = player_step b e p
          in run_callbacks (snd r) (app\<lparr>playerRef := Some (fst r)\<rparr>))"

definition playback_completes :: "App \<Rightarrow> nat" where
  "playback_completes app =
     (case wsRef app of None \<Rightarrow> 0 | Some sent \<Rightarrow> count_list sent PlaybackComplete)"

definition demo_browser :: browser where
  "demo_browser =
     \<lparr>atob = (\<lambda>s. if s = ''QUJD'' then Some [65, 66, 67] else None),
      appendBuffer_throws = False, addSourceBuffer_throws = False, endOfStream_throws = False\<rparr>"

definition demo_player :: AudioPlayer where
  "demo_player = (setOnComplete playback_complete_callback new_AudioPlayer)\<lparr>queue := [[9]]\<rparr>"

definition demo_app :: App where
  "demo_app = init_player \<lparr>playerRef = None, wsRef = Some [Connect], currentState = SPEAKING\<rparr>"

text \<open>
  The audio a player holds: what has been appended to the source buffer, and the queue.
\<close>

definition buffered :: "AudioPlayer \<Rightarrow> bytes list" where
  "buffered p = (case sourceBuffer p of None \<Rightarrow> [] | Some sb \<Rightarrow> appended sb) @ queue p"

lemma buffered_flushQueue: "set (buffered (flushQueue b p)) \<subseteq> set (buffered p)"
  by (auto simp: buffered_def flushQueue_def split: option.splits list.splits)

lemma buffered_flushQueue_ok:
  "\<not> appendBuffer_throws b \<Longrightarrow> set (buffered (flushQueue b p)) = set (buffered p)"
  by (auto simp: buffered_def flushQueue_def split: option.splits list.splits)

lemma buffered_resetStream: "buffered (resetStream p) = []"
  by (simp add: buffered_def resetStream_def)

lemma buffered_finalize: "set (buffered (finalize b p)) \<subseteq> set (buffered p)"
  using buffered_flushQueue [of b "p\<lparr>isFinalized := True\<rparr>"]
  by (simp add: finalize_def buffered_def)

lemma buffered_addChunk:
  "set (buffered (addChunk b a p)) \<subseteq> set (buffered p) \<union> (case atob b a of None \<Rightarrow> {} | Some bts \<Rightarrow> {bts})"
proof (cases "a = [] \<or> mediaSource p = None")
  case True
  then show ?thesis by (auto simp: addChunk_def)
next
  case False
  show ?thesis
  proof (cases "atob b a")
    case None
    with False show ?thesis by (simp add: addChunk_def)
  next
    case (Some bts)
    have "set (buffered (flushQueue b (p\<lparr>queue := queue p @ [bts]\<rparr>))) \<subseteq> set (buffered (p\<lparr>queue := queue p @ [bts]\<rparr>))"
      by (rule buffered_flushQueue)
    also have "\<dots> = set (buffered p) \<union> {bts}" by (auto simp: buffered_def)
    finally show ?thesis using False Some
      by (auto simp: addChunk_def Let_def buffered_def)
  qed
qed

lemma buffered_addChunk_ok:
  assumes "a \<noteq> []" "mediaSource p \<noteq> None" "atob b a = Some bts" "\<not> appendBuffer_throws b"
  shows "bts \<in> set (buffered (addChunk b a p))"
proof -
  have "set (buffered (flushQueue b (p\<lparr>queue := queue p @ [bts]\<rparr>))) = set (buffered (p\<lparr>queue := queue p @ [bts]\<rparr>))"
    using assms(4) by (rule buffered_flushQueue_ok)
  then have "bts \<in> set (buffered (flushQueue b (p\<lparr>queue := queue p @ [bts]\<rparr>)))"
    by (simp add: buffered_def)
  then show ?thesis using assms
    by (auto simp: addChunk_def Let_def buffered_def)
qed

text \<open>
  Claim C8. In the handler of \<open>agent_audio_chunk\<close> a final chunk only finalizes: the
  player after it is \<open>finalize\<close> of the player before it (reset first when the index is
  0), whatever audio the message carries, and it holds no audio it did not hold before.
  The payload reaches \<open>addChunk\<close> exactly when it is not empty and \<open>is_final\<close> is false,
  and is then held by the player (when it decodes and the browser accepts the append).
  A chunk with index 0 resets the stream first: the player then holds nothing but this
  chunk's audio, and what the queue and the source buffer held before has no influence
  on the player after the message.
\<close>

theorem agent_audio_chunk_handler:
  "(is_final \<longrightarrow>
      on_agent_audio_chunk b audio i is_final p = finalize b (if i = 0 then resetStream p else p)
      \<and> set (buffered (on_agent_audio_chunk b audio i is_final p)) \<subseteq> set (buffered p))
   \<and> (\<not> is_final \<and> audio \<noteq> [] \<longrightarrow>
      on_agent_audio_chunk b audio i is_final p
        = addChunk b audio (if i = 0 then resetStream p else p))
   \<and> (\<not> is_final \<and> audio \<noteq> [] \<and> atob b audio = Some decoded \<and> \<not> appendBuffer_throws b
        \<and> (i = 0 \<or> mediaSource p \<noteq> None) \<longrightarrow>
      decoded \<in> set (buffered (on_agent_audio_chunk b audio i is_final p)))
   \<and> (\<not> is_final \<and> audio = [] \<longrightarrow>
      on_agent_audio_chunk b audio i is_final p = (if i = 0 then resetStream p else p))
   \<and> (i = 0 \<longrightarrow>
      buffered (resetStream p) = []
      \<and> set (buffered (on_agent_audio_chunk b audio i is_final p))
           \<subseteq> (case atob b audio of None \<Rightarrow> {} | Some bts \<Rightarrow> if is_final then {} else {bts})
      \<and> on_agent_audio_chunk b audio i is_final (p\<lparr>queue := q, sourceBuffer := sb\<rparr>)
          = on_agent_audio_chunk b audio i is_final p)"
proof -
  let ?p1 = "if i = 0 then resetStream p else p"
  have fin: "set (buffered (finalize b ?p1)) \<subseteq> set (buffered p)"
    using buffered_finalize [of b ?p1] by (auto simp: buffered_resetStream)
  have ms: "i = 0 \<or> mediaSource p \<noteq> None \<Longrightarrow> mediaSource ?p1 \<noteq> None"
    by (auto simp: resetStream_def)
  have add: "audio \<noteq> [] \<Longrightarrow> atob b audio = Some decoded \<Longrightarrow> \<not> appendBuffer_throws b \<Longrightarrow>
      i = 0 \<or> mediaSource p \<noteq> None \<Longrightarrow> decoded \<in> set (buffered (addChunk b audio ?p1))"
    using buffered_addChunk_ok [of audio ?p1 b decoded] ms by blast
  have z1: "set (buffered (finalize b (resetStream p))) = {}"
    using buffered_finalize [of b "resetStream p"] by (simp add: buffered_resetStream)
  have z2: "set (buffered (addChunk b audio (resetStream p)))
      \<subseteq> (case atob b audio of None \<Rightarrow> {} | Some bts \<Rightarrow> {bts})"
    using buffered_addChunk [of b audio "resetStream p"] by (simp add: buffered_resetStream)
  have indep: "resetStream (p\<lparr>queue := q, sourceBuffer := sb\<rparr>) = resetStream p"
    by (simp add: resetStream_def)
  have e1: "is_final \<Longrightarrow> on_agent_audio_chunk b audio i is_final p = finalize b ?p1"
    by (simp add: on_agent_audio_chunk_def)
  have e2: "\<not> is_final \<Longrightarrow> audio \<noteq> [] \<Longrightarrow>
      on_agent_audio_chunk b audio i is_final p = addChunk b audio ?p1"
    by (simp add: on_agent_audio_chunk_def)
  have e3: "\<not> is_final \<Longrightarrow> audio = [] \<Longrightarrow> on_agent_audio_chunk b audio i is_final p = ?p1"
    by (simp add: on_agent_audio_chunk_def)
  have e4: "i = 0 \<Longrightarrow> on_agent_audio_chunk b audio i is_final (p\<lparr>queue := q, sourceBuffer := sb\<rparr>)
      = on_agent_audio_chunk b audio i is_final p"
    by (simp add: on_agent_audio_chunk_def indep)
  have z: "i = 0 \<Longrightarrow> set (buffered (on_agent_audio_chunk b audio i is_final p))
      \<subseteq> (case atob b audio of None \<Rightarrow> {} | Some bts \<Rightarrow> if is_final then {} else {bts})"
  proof (cases is_final)
    case True
    assume "i = 0"
    with True z1 e1 show ?thesis by (simp split: option.splits)
  next
    case False
    assume i0: "i = 0"
    show ?thesis
    proof (cases "audio = []")
      case True
      with False i0 e3 show ?thesis by (simp add: buffered_resetStream split: option.splits)
    next
      case False
      with \<open>\<not> is_final\<close> i0 e2 z2 show ?thesis by (simp split: option.splits)
    qed
  qed
  show ?thesis
    using fin add e1 e2 e3 e4 z by (simp add: buffered_resetStream) 
qed

theorem agent_audio_chunk_handler_witness:
  "queue (on_agent_audio_chunk demo_browser ''QUJD'' 1 True demo_player) = [[9]]
   \<and> queue (on_agent_audio_chunk demo_browser ''QUJD'' 1 False demo_player) = [[9], [65, 66, 67]]
   \<and> queue (on_agent_audio_chunk demo_browser ''QUJD'' 0 False demo_player) = [[65, 66, 67]]
   \<and> queue (on_agent_audio_chunk demo_browser ''QUJD'' 0 True demo_player) = []
   \<and> isFinalized (on_agent_audio_chunk demo_browser ''QUJD'' 0 True demo_player)"
  using agent_audio_chunk_handler [where is_final = True and b = demo_browser
        and audio = "''QUJD''" and i = 1 and p = demo_player]
    agent_audio_chunk_handler [where is_final = False and b = demo_browser
        and audio = "''QUJD''" and i = 1 and p = demo_player and decoded = "[65, 66, 67]"]
    agent_audio_chunk_handler [where is_final = False and b = demo_browser
        and audio = "''QUJD''" and i = 0 and p = demo_player and decoded = "[65, 66, 67]"]
    agent_audio_chunk_handler [where is_final = True and b = demo_browser
        and audio = "''QUJD''" and i = 0 and p = demo_player]
  by (simp add: demo_browser_def demo_player_def new_AudioPlayer_def resetStream_def
      setOnComplete_def finalize_def flushQueue_def addChunk_def)

lemma player_step_callbacks:
  "cb \<in> set (snd (player_step b e p)) \<Longrightarrow> e = Ended \<and> onComplete p = Some cb"
  by (cases e) (auto simp: on_ended_def split: option.splits)

lemma onmessage_wsRef: "wsRef (onmessage b m app) = wsRef app"
  by (cases m) (simp_all add: Let_def)

lemma playback_completes_ws_send:
  "playback_completes (ws_send m app) =
     playback_completes app + (if m = PlaybackComplete \<and> wsRef app \<noteq> None then 1 else 0)"
  by (auto simp: playback_completes_def ws_send_def split: option.splits)

lemma playback_completes_playerRef:
  "playback_completes (app\<lparr>playerRef := x\<rparr>) = playback_completes app"
  by (simp add: playback_completes_def)

lemma app_step_playback_complete:
  assumes "playback_completes (app_step b ev app) \<noteq> playback_completes app"
  shows "ev = PlayerEvent Ended"
proof (cases ev)
  case (ServerMessage m)
  with assms show ?thesis
    by (simp add: playback_completes_def onmessage_wsRef)
next
  case InterruptClicked
  with assms show ?thesis
    by (simp add: handleInterrupt_def playback_completes_ws_send playback_completes_playerRef)
next
  case (MicrophoneData a)
  with assms show ?thesis
    by (simp add: playback_completes_ws_send)
next
  case (PlayerEvent e)
  show ?thesis
  proof (cases "playerRef app")
    case None
    with assms PlayerEvent show ?thesis by simp
  next
    case (Some p)
    show ?thesis
    proof (cases "snd (player_step b e p)")
      case Nil
      with assms PlayerEvent Some show ?thesis
        by (simp add: Let_def run_callbacks_def playback_completes_playerRef)
    next
      case (Cons cb cbs)
      then have "cb \<in> set (snd (player_step b e p))" by simp
      then have "e = Ended" by (rule player_step_callbacks [THEN conjunct1])
      with PlayerEvent show ?thesis by simp
    qed
  qed
qed

text \<open>
  Claim C9. \<open>stop\<close> empties the queue, clears the playing and finalized flags and drops
  the source buffer, keeps the registered callback and invokes nothing. A step of the
  player invokes a callback only when it is the \<open>ended\<close> event of the audio element, and
  a step of the client adds a \<open>playback_complete\<close> to the messages sent only when it is
  that event: neither the \<open>state_change\<close> from SPEAKING to LISTENING nor the interrupt
  button, which both call \<open>stop\<close>, sends one.
\<close>

theorem stop_never_completes:
  "snd (player_step b CallStop p) = []
   \<and> queue (stop p) = [] \<and> \<not> isPlaying (stop p) \<and> \<not> isFinalized (stop p)
   \<and> sourceBuffer (stop p) = None \<and> onComplete (stop p) = onComplete p
   \<and> (cb \<in> set (snd (player_step b e p)) \<longrightarrow> e = Ended \<and> onComplete p = Some cb)
   \<and> (playback_completes (app_step b ev app) \<noteq> playback_completes app \<longrightarrow>
        ev = PlayerEvent Ended)"
  using player_step_callbacks [of cb b e p] app_step_playback_complete [of b ev app]
  by (auto simp add: stop_def resetStream_def)

theorem stop_never_completes_witness:
  "wsRef (app_step demo_browser (PlayerEvent Ended) demo_app) = Some [Connect, PlaybackComplete]
   \<and> wsRef (app_step demo_browser (ServerMessage (StateChange SPEAKING LISTENING)) demo_app)
       = Some [Connect]
   \<and> wsRef (app_step demo_browser InterruptClicked demo_app) = Some [Connect, Interrupt]
   \<and> snd (player_step demo_browser Ended (setOnComplete 0 new_AudioPlayer)) = [0]
   \<and> snd (player_step demo_browser CallStop (setOnComplete 0 new_AudioPlayer)) = []"
  using stop_never_completes [of demo_browser "setOnComplete 0 new_AudioPlayer" 0 Ended
      "PlayerEvent Ended" demo_app]
  by (simp add: demo_app_def init_player_def playback_complete_callback_def setOnComplete_def
      new_AudioPlayer_def resetStream_def on_ended_def run_callbacks_def ws_send_def
      handleInterrupt_def stop_def Let_def)

section \<open>Turn controller code quoted in the repository's documents\<close>

text \<open>
  The Python files of the backend (\<open>turn_controller.py\<close> and its collaborators) are not
  available as source files. The development log quotes the barge-in handler of
  \<open>turn_controller.py\<close> as code; this section embeds it as it stands.
\<close>

subsection \<open>Barge-in: \<open>handle_interrupt\<close> (development log, Problem 2, as fixed)\<close>

text \<open>
  The quoted handler acts in SPEAKING only: it sets the cancel event that the LLM and the
  TTS stream share, moves to LISTENING, and asks Deepgram to finish the utterance when
  there is a client. The body of \<open>transition_to\<close> is not quoted; it is taken to set the
  state.
\<close>

record interrupt_handler =
  handler_state :: turn_state
  cancel_event :: bool
  deepgram_client :: bool
  finish_utterance_sent :: nat

definition handle_interrupt :: "interrupt_handler \<Rightarrow> interrupt_handler" where
  "handle_interrupt c =
     (if handler_state c = SPEAKING
      then let c1 = c\<lparr>cancel_event := True, handler_state := LISTENING\<rparr>
           in if deepgram_client c1
              then c1\<lparr>finish_utterance_sent := Suc (finish_utterance_sent c1)\<rparr> else c1
      else c)"

section \<open>The turn controller of the specification\<close>

text \<open>
  Modelled from the spec: the event handlers of the turn controller, the state machine,
  the transcript buffer and the silence timer (\<open>turn_controller.py\<close>,
  \<open>state_machine.py\<close>, \<open>transcript_buffer.py\<close>, \<open>silence_timer.py\<close>), none of which is
  available as a source file. The session is the record below; one function
  per operation of spec section 4.7.1 and per adapter event, following sections 4.1 to
  4.3 and 4.7.2 to 4.7.4 sentence by sentence.

  A turn is opened when SPECULATIVE is entered and closed by a silent cancel, a barge-in,
  the end of playback or a TTS failure. Every message is logged with the id of the turn
  that is open when it is sent. Sentences and audio chunks carry the id of the turn whose
  stream produced them; a stream whose cancel signal is set delivers nothing more. In
  SPECULATIVE any partial or final cancels, with or without a correction marker, so the
  marker test decides nothing here and is left out. An audio frame carries whether it
  holds audio activity; in SPECULATIVE only such a frame cancels.
\<close>

text \<open>
  Modelled from the spec: the \<open>Turn\<close> entity (spec section 3), with the fields the
  controller writes when it closes a turn.
\<close>

datatype turn_outcome = completed | speculatively_canceled | interrupted | llm_failed | tts_failed

record Turn =
  turn_id :: nat
  user_text :: string
  agent_text :: string
  was_interrupted :: bool
  outcome :: turn_outcome

datatype timer_state = inactive | running | fired | canceled

datatype client_out =
    state_change turn_state turn_state
  | transcript_partial string
  | transcript_final string
  | agent_audio_chunk string nat bool
  | agent_text_fallback string
  | turn_complete nat string string bool

record session =
  fsm :: turn_state
  partial_text :: string
  final_segments :: "string list"
  locked :: bool
  timer :: timer_state
  llm_cancel :: bool
  tts_cancel :: bool
  hold_buffer :: "string list"
  tts_input :: "string list"
  chunk_index :: nat
  turn_open :: bool
  cur_turn_id :: nat
  cur_user_text :: string
  cur_agent_text :: string
  next_turn_id :: nat
  closed_turns :: "Turn list"
  stt_frames :: nat
  stt_finalized :: nat
  tokens_wasted :: nat
  outbox :: "(nat option \<times> client_out) list"

definition session_ready :: session where
  "session_ready =
     \<lparr>fsm = IDLE, partial_text = [], final_segments = [], locked = False, timer = inactive,
      llm_cancel = False, tts_cancel = False, hold_buffer = [], tts_input = [],
      chunk_index = 0, turn_open = False, cur_turn_id = 0, cur_user_text = [],
      cur_agent_text = [], next_turn_id = 0, closed_turns = [], stt_frames = 0,
      stt_finalized = 0, tokens_wasted = 0, outbox = []\<rparr>"

definition emit :: "client_out \<Rightarrow> session \<Rightarrow> session" where
  "emit m s =
     s\<lparr>outbox := outbox s @ [(if turn_open s then Some (cur_turn_id s) else None, m)]\<rparr>"

text \<open>
  Section 4.1: every transition emits \<open>state_change\<close>; entering LISTENING from
  SPECULATIVE, COMMITTED or SPEAKING sets both cancel signals.
\<close>

definition enter :: "turn_state \<Rightarrow> session \<Rightarrow> session" where
  "enter to s =
     (let s1 = emit (state_change (fsm s) to) s;
          s2 = (if to = LISTENING \<and> fsm s \<in> {SPECULATIVE, COMMITTED, SPEAKING}
                then s1\<lparr>llm_cancel := True, tts_cancel := True\<rparr> else s1)
      in s2\<lparr>fsm := to\<rparr>)"

definition complete_text :: "session \<Rightarrow> string" where
  "complete_text s =
     concat (case final_segments s of [] \<Rightarrow> [] | x # xs \<Rightarrow> x # map (\<lambda>y. '' '' @ y) xs)"

definition reset_buffer :: "session \<Rightarrow> session" where
  "reset_buffer s = s\<lparr>partial_text := [], final_segments := [], locked := False\<rparr>"

definition set_partial :: "string \<Rightarrow> session \<Rightarrow> session" where
  "set_partial text s = (if locked s then s else s\<lparr>partial_text := text\<rparr>)"

definition close_turn :: "turn_outcome \<Rightarrow> bool \<Rightarrow> session \<Rightarrow> session" where
  "close_turn oc interrupted_flag s =
     s\<lparr>closed_turns := closed_turns s @
          [\<lparr>turn_id = cur_turn_id s, user_text = cur_user_text s,
            agent_text = cur_agent_text s, was_interrupted = interrupted_flag, outcome = oc\<rparr>],
       turn_open := False\<rparr>"

text \<open>
  Section 4.7.2, step 5, the silent cancel: cancel the timer, set \<open>llm_cancel\<close>, count the
  held sentences as waste and discard them, go back to LISTENING, mark the turn
  \<open>speculatively_canceled\<close>.
\<close>

definition silent_cancel :: "session \<Rightarrow> session" where
  "silent_cancel s =
     (let s1 = s\<lparr>timer := canceled, llm_cancel := True,
                 tokens_wasted := tokens_wasted s + length (hold_buffer s),
                 hold_buffer := [], cur_agent_text := []\<rparr>;
          s2 = enter LISTENING s1
      in close_turn speculatively_canceled False s2)"

text \<open>
  Section 4.7.4, the barge-in: set both cancel signals, finalize the STT utterance, go to
  LISTENING, reset the transcript buffer, mark the outgoing turn \<open>was_interrupted\<close> and
  close it (scenario S3 expects its \<open>turn_complete\<close> with \<open>was_interrupted = true\<close>).
\<close>

definition barge_in :: "session \<Rightarrow> session" where
  "barge_in s =
     (let s1 = s\<lparr>tts_cancel := True, llm_cancel := True,
                 stt_finalized := Suc (stt_finalized s)\<rparr>;
          s2 = reset_buffer (enter LISTENING s1);
          s3 = emit (turn_complete (cur_turn_id s2) (cur_user_text s2) (cur_agent_text s2) True) s2
      in close_turn interrupted True s3)"

definition on_audio_frame :: "bool \<Rightarrow> session \<Rightarrow> session" where
  "on_audio_frame activity s =
     (let s1 = s\<lparr>stt_frames := Suc (stt_frames s)\<rparr>
      in case fsm s1 of
           IDLE \<Rightarrow> enter LISTENING s1
         | LISTENING \<Rightarrow> s1
         | SPECULATIVE \<Rightarrow> if activity then silent_cancel s1 else s1
         | COMMITTED \<Rightarrow> barge_in s1
         | SPEAKING \<Rightarrow> barge_in s1)"

definition on_partial :: "string \<Rightarrow> session \<Rightarrow> session" where
  "on_partial text s =
     (let s1 = emit (transcript_partial text) (set_partial text s)
      in if fsm s1 = SPECULATIVE then silent_cancel s1 else s1)"

text \<open>
  What starts when a final arrives in LISTENING (section 4.7.2, steps 1 and 2): the timer
  runs, the signals of the new turn are clear, the hold buffer is empty, SPECULATIVE is
  entered.
\<close>

definition start_speculation :: "session \<Rightarrow> session" where
  "start_speculation s =
     enter SPECULATIVE
       (s\<lparr>timer := running, llm_cancel := False, tts_cancel := False, hold_buffer := [],
          tts_input := [], chunk_index := 0, turn_open := True, cur_turn_id := next_turn_id s,
          next_turn_id := Suc (next_turn_id s), cur_user_text := complete_text s,
          cur_agent_text := []\<rparr>)"

definition on_final :: "string \<Rightarrow> session \<Rightarrow> session" where
  "on_final text s =
     (if locked s then s
      else let s1 = (if fsm s = SPECULATIVE then silent_cancel s else s);
               s2 = emit (transcript_final text)
                      (s1\<lparr>partial_text := [], final_segments := final_segments s1 @ [text]\<rparr>)
           in if fsm s2 = LISTENING then start_speculation s2 else s2)"

definition on_silence_timeout :: "session \<Rightarrow> session" where
  "on_silence_timeout s =
     (if fsm s = SPECULATIVE \<and> timer s = running
      then let s1 = enter COMMITTED (s\<lparr>timer := fired\<rparr>)
           in s1\<lparr>locked := True, tts_input := hold_buffer s1, hold_buffer := [],
                 cur_agent_text := concat (hold_buffer s1)\<rparr>
      else s)"

definition on_interrupt_message :: "session \<Rightarrow> session" where
  "on_interrupt_message s =
     (case fsm s of
        SPEAKING \<Rightarrow> barge_in s
      | COMMITTED \<Rightarrow> barge_in s
      | SPECULATIVE \<Rightarrow> silent_cancel s
      | _ \<Rightarrow> s)"

definition finish_turn :: "session \<Rightarrow> session" where
  "finish_turn s =
     (let s1 = emit (turn_complete (cur_turn_id s) (cur_user_text s) (cur_agent_text s) False) s;
          s2 = enter IDLE s1
      in reset_buffer (close_turn completed False s2))"

definition on_playback_complete :: "session \<Rightarrow> session" where
  "on_playback_complete s = (if fsm s = SPEAKING then finish_turn s else s)"

definition on_llm_sentence :: "nat \<Rightarrow> string \<Rightarrow> session \<Rightarrow> session" where
  "on_llm_sentence tid sentence s =
     (if llm_cancel s \<or> \<not> turn_open s \<or> tid \<noteq> cur_turn_id s then s
      else case fsm s of
             SPECULATIVE \<Rightarrow> s\<lparr>hold_buffer := hold_buffer s @ [sentence]\<rparr>
           | COMMITTED \<Rightarrow> s\<lparr>tts_input := tts_input s @ [sentence],
                                cur_agent_text := cur_agent_text s @ sentence\<rparr>
           | SPEAKING \<Rightarrow> s\<lparr>tts_input := tts_input s @ [sentence],
                               cur_agent_text := cur_agent_text s @ sentence\<rparr>
           | _ \<Rightarrow> s)"

definition on_tts_chunk :: "nat \<Rightarrow> string \<Rightarrow> bool \<Rightarrow> session \<Rightarrow> session" where
  "on_tts_chunk tid audio is_final s =
     (if tts_cancel s \<or> \<not> turn_open s \<or> tid \<noteq> cur_turn_id s then s
      else case fsm s of
             COMMITTED \<Rightarrow>
               enter SPEAKING
                 ((emit (agent_audio_chunk audio (chunk_index s) is_final) s)
                    \<lparr>chunk_index := Suc (chunk_index s)\<rparr>)
           | SPEAKING \<Rightarrow>
               (emit (agent_audio_chunk audio (chunk_index s) is_final) s)
                 \<lparr>chunk_index := Suc (chunk_index s)\<rparr>
           | _ \<Rightarrow> s)"

text \<open>Section 7, a permanent TTS failure before any audio: the text goes out instead.\<close>

definition on_tts_failed :: "nat \<Rightarrow> session \<Rightarrow> session" where
  "on_tts_failed tid s =
     (if fsm s = COMMITTED \<and> \<not> tts_cancel s \<and> tid = cur_turn_id s
      then let s1 = emit (agent_text_fallback (cur_agent_text s)) s;
               s2 = emit (turn_complete (cur_turn_id s1) (cur_user_text s1)
                            (cur_agent_text s1) False) s1;
               s3 = enter IDLE s2
           in reset_buffer (close_turn tts_failed False s3)
      else s)"

datatype event =
    audio_frame bool
  | partial string
  | final string
  | silence_timeout
  | interrupt_message
  | playback_complete
  | playback_watchdog
  | llm_sentence nat string
  | tts_chunk nat string bool
  | tts_failure nat

fun step :: "event \<Rightarrow> session \<Rightarrow> session" where
  "step (audio_frame activity) s = on_audio_frame activity s"
| "step (partial text) s = on_partial text s"
| "step (final text) s = on_final text s"
| "step silence_timeout s = on_silence_timeout s"
| "step interrupt_message s = on_interrupt_message s"
| "step playback_complete s = on_playback_complete s"
| "step playback_watchdog s = on_playback_complete s"
| "step (llm_sentence tid sentence) s = on_llm_sentence tid sentence s"
| "step (tts_chunk tid audio is_final) s = on_tts_chunk tid audio is_final s"
| "step (tts_failure tid) s = on_tts_failed tid s"

definition run :: "event list \<Rightarrow> session \<Rightarrow> session" where
  "run events s = fold step events s"

text \<open>Agent output: an audio chunk, or a message that carries a non-empty agent text.\<close>

fun agent_output :: "client_out \<Rightarrow> bool" where
  "agent_output (agent_audio_chunk a i f) = True"
| "agent_output (agent_text_fallback t) = (t \<noteq> [])"
| "agent_output (turn_complete i u a w) = (a \<noteq> [])"
| "agent_output _ = False"

text \<open>
  What holds of every session the controller can reach: a turn is open exactly in
  SPECULATIVE, COMMITTED and SPEAKING; turn ids are handed out in increasing order, so
  no message and no closed turn bears the id of a later turn; a turn in SPECULATIVE has
  surfaced nothing; and neither has any closed turn marked \<open>speculatively_canceled\<close>.
\<close>

definition session_inv :: "session \<Rightarrow> bool" where
  "session_inv s \<longleftrightarrow>
     (turn_open s = (fsm s \<in> {SPECULATIVE, COMMITTED, SPEAKING}))
     \<and> (turn_open s \<longrightarrow> cur_turn_id s < next_turn_id s)
     \<and> (\<forall>t \<in> set (closed_turns s). turn_id t < next_turn_id s
            \<and> (turn_open s \<longrightarrow> turn_id t \<noteq> cur_turn_id s))
     \<and> (\<forall>i m. (Some i, m) \<in> set (outbox s) \<longrightarrow> i < next_turn_id s)
     \<and> (fsm s = SPECULATIVE \<longrightarrow> cur_agent_text s = []
            \<and> (\<forall>m. (Some (cur_turn_id s), m) \<in> set (outbox s) \<longrightarrow> \<not> agent_output m))
     \<and> (\<forall>t \<in> set (closed_turns s). outcome t = speculatively_canceled \<longrightarrow>
            agent_text t = []
            \<and> (\<forall>m. (Some (turn_id t), m) \<in> set (outbox s) \<longrightarrow> \<not> agent_output m))"

lemma inv_session_ready: "session_inv session_ready"
  by (simp add: session_inv_def session_ready_def)

lemma inv_silent_cancel: "session_inv s \<Longrightarrow> fsm s = SPECULATIVE \<Longrightarrow> session_inv (silent_cancel s)"
  by (auto simp: session_inv_def silent_cancel_def enter_def emit_def close_turn_def Let_def)

lemma inv_barge_in:
  "session_inv s \<Longrightarrow> fsm s = COMMITTED \<or> fsm s = SPEAKING \<Longrightarrow> session_inv (barge_in s)"
  by (auto simp: session_inv_def barge_in_def enter_def emit_def close_turn_def
      reset_buffer_def Let_def)

lemma inv_stt_frames: "session_inv (s\<lparr>stt_frames := n\<rparr>) = session_inv s"
  by (simp add: session_inv_def)

lemma inv_enter_listening: "session_inv s \<Longrightarrow> fsm s = IDLE \<Longrightarrow> session_inv (enter LISTENING s)"
  by (auto simp: session_inv_def enter_def emit_def Let_def)

lemma inv_on_audio_frame: "session_inv s \<Longrightarrow> session_inv (on_audio_frame a s)"
  by (cases "fsm s")
    (simp_all add: on_audio_frame_def Let_def inv_stt_frames inv_enter_listening
      inv_silent_cancel inv_barge_in)

lemma inv_emit_plain: "session_inv s \<Longrightarrow> \<not> agent_output m \<Longrightarrow> session_inv (emit m s)"
  by (auto simp: session_inv_def emit_def)

lemma inv_transcript:
  "session_inv (s\<lparr>partial_text := p, final_segments := f\<rparr>) = session_inv s"
  by (simp add: session_inv_def)

lemma inv_partial_text: "session_inv (s\<lparr>partial_text := p\<rparr>) = session_inv s"
  by (simp add: session_inv_def)

lemma inv_on_partial: "session_inv s \<Longrightarrow> session_inv (on_partial text s)"
proof -
  assume "session_inv s"
  then have "session_inv (set_partial text s)"
    by (simp add: set_partial_def inv_partial_text)
  then have "session_inv (emit (transcript_partial text) (set_partial text s))"
    by (rule inv_emit_plain) simp
  then show ?thesis
    by (simp add: on_partial_def Let_def inv_silent_cancel)
qed

lemma inv_start_speculation:
  "session_inv s \<Longrightarrow> fsm s = LISTENING \<Longrightarrow> session_inv (start_speculation s)"
  by (fastforce simp: session_inv_def start_speculation_def enter_def emit_def Let_def)

lemma inv_on_final: "session_inv s \<Longrightarrow> session_inv (on_final text s)"
proof -
  assume i: "session_inv s"
  define s1 where "s1 = (if fsm s = SPECULATIVE then silent_cancel s else s)"
  have i1: "session_inv s1" using i by (simp add: s1_def inv_silent_cancel)
  define s2 where "s2 = emit (transcript_final text)
      (s1\<lparr>partial_text := [], final_segments := final_segments s1 @ [text]\<rparr>)"
  have i2: "session_inv s2"
    unfolding s2_def using i1 by (intro inv_emit_plain) (simp_all add: inv_transcript)
  show ?thesis
    using i i2 by (simp add: on_final_def Let_def s1_def [symmetric] s2_def [symmetric]
      inv_start_speculation)
qed

lemma inv_on_silence_timeout: "session_inv s \<Longrightarrow> session_inv (on_silence_timeout s)"
  by (auto simp: session_inv_def on_silence_timeout_def enter_def emit_def Let_def)

lemma inv_on_interrupt_message: "session_inv s \<Longrightarrow> session_inv (on_interrupt_message s)"
  by (cases "fsm s") (simp_all add: on_interrupt_message_def inv_silent_cancel inv_barge_in)

lemma inv_on_playback_complete: "session_inv s \<Longrightarrow> session_inv (on_playback_complete s)"
  by (auto simp: session_inv_def on_playback_complete_def finish_turn_def enter_def emit_def
      close_turn_def reset_buffer_def Let_def)

lemma inv_on_llm_sentence: "session_inv s \<Longrightarrow> session_inv (on_llm_sentence tid sentence s)"
  by (cases "fsm s") (auto simp: session_inv_def on_llm_sentence_def)

lemma inv_on_tts_chunk: "session_inv s \<Longrightarrow> session_inv (on_tts_chunk tid audio is_final s)"
  by (cases "fsm s") (auto simp: session_inv_def on_tts_chunk_def enter_def emit_def Let_def)

lemma inv_on_tts_failed: "session_inv s \<Longrightarrow> session_inv (on_tts_failed tid s)"
  by (auto simp: session_inv_def on_tts_failed_def enter_def emit_def close_turn_def
      reset_buffer_def Let_def)

lemma inv_step: "session_inv s \<Longrightarrow> session_inv (step e s)"
  by (cases e) (simp_all add: inv_on_audio_frame inv_on_partial inv_on_final
    inv_on_silence_timeout inv_on_interrupt_message inv_on_playback_complete
    inv_on_llm_sentence inv_on_tts_chunk inv_on_tts_failed)

lemma inv_run: "session_inv s \<Longrightarrow> session_inv (run events s)"
  unfolding run_def by (induction events arbitrary: s) (simp_all add: inv_step)

definition scenario_S2 :: "event list" where
  "scenario_S2 =
     [audio_frame True, final ''I want to book'', llm_sentence 0 ''Sure, where to?'',
      partial ''I want to book a flight'']"

definition scenario_S3 :: "event list" where
  "scenario_S3 =
     [audio_frame True, final ''Hello there'', silence_timeout, llm_sentence 0 ''Hi!'',
      tts_chunk 0 ''audio-0'' False]"

definition scenario_held :: "event list" where
  "scenario_held = [audio_frame True, final ''Hello there'', llm_sentence 0 ''Hi!'']"

text \<open>In SPECULATIVE nothing has been handed to TTS.\<close>

definition tts_idle :: "session \<Rightarrow> bool" where
  "tts_idle s = (fsm s \<noteq> SPECULATIVE \<or> tts_input s = [])"

text \<open>
  Claim C1. Whatever the events of a session, a turn that was closed as
  \<open>speculatively_canceled\<close> has an empty agent text, and none of the messages sent while
  it was open is an audio chunk or carries a non-empty agent text: what the LLM produced
  for it stayed in the hold buffer, which the cancel discards.
\<close>

theorem speculative_cancel_is_silent:
  assumes "t \<in> set (closed_turns (run events session_ready))"
    and "outcome t = speculatively_canceled"
  shows "agent_text t = []
    \<and> (\<forall>m. (Some (turn_id t), m) \<in> set (outbox (run events session_ready))
          \<longrightarrow> \<not> agent_output m)"
  using inv_run [OF inv_session_ready, of events] assms
  unfolding session_inv_def by blast

theorem speculative_cancel_is_silent_witness:
  "closed_turns (run scenario_S2 session_ready)
     = [\<lparr>turn_id = 0, user_text = ''I want to book'', agent_text = [],
          was_interrupted = False, outcome = speculatively_canceled\<rparr>]
   \<and> outbox (run scenario_S2 session_ready)
     = [(None, state_change IDLE LISTENING), (None, transcript_final ''I want to book''),
        (Some 0, state_change LISTENING SPECULATIVE),
        (Some 0, transcript_partial ''I want to book a flight''),
        (Some 0, state_change SPECULATIVE LISTENING)]
   \<and> hold_buffer (run scenario_S2 session_ready) = []
   \<and> tokens_wasted (run scenario_S2 session_ready) = 1"
  using speculative_cancel_is_silent [of
      "\<lparr>turn_id = 0, user_text = ''I want to book'', agent_text = [],
        was_interrupted = False, outcome = speculatively_canceled\<rparr>" scenario_S2]
  by (simp add: scenario_S2_def run_def session_ready_def on_audio_frame_def on_final_def
      on_llm_sentence_def on_partial_def silent_cancel_def enter_def emit_def close_turn_def
      start_speculation_def set_partial_def complete_text_def Let_def)

text \<open>
  Claim C7. An audio frame or an interrupt message that arrives in SPEAKING sets both
  cancel signals, finalizes the STT utterance once, leaves the controller in LISTENING
  with a \<open>state_change\<close> and a \<open>turn_complete\<close> sent, and closes the outgoing turn with
  \<open>was_interrupted\<close> set. The quoted \<open>handle_interrupt\<close> takes the same three steps in
  SPEAKING: cancel, transition, finish the utterance (when there is a Deepgram client).
\<close>

theorem barge_in_while_speaking:
  "(fsm s = SPEAKING \<and> (e = audio_frame activity \<or> e = interrupt_message) \<longrightarrow>
      tts_cancel (step e s) \<and> llm_cancel (step e s)
      \<and> stt_finalized (step e s) = Suc (stt_finalized s)
      \<and> fsm (step e s) = LISTENING
      \<and> map snd (outbox (step e s)) = map snd (outbox s) @
           [state_change SPEAKING LISTENING,
            turn_complete (cur_turn_id s) (cur_user_text s) (cur_agent_text s) True]
      \<and> closed_turns (step e s) = closed_turns s @
           [\<lparr>turn_id = cur_turn_id s, user_text = cur_user_text s,
             agent_text = cur_agent_text s, was_interrupted = True, outcome = interrupted\<rparr>]
      \<and> \<not> turn_open (step e s))
   \<and> (handler_state c = SPEAKING \<longrightarrow>
      cancel_event (handle_interrupt c) \<and> handler_state (handle_interrupt c) = LISTENING
      \<and> finish_utterance_sent (handle_interrupt c)
          = (if deepgram_client c then Suc (finish_utterance_sent c)
             else finish_utterance_sent c))"
  by (auto simp: on_audio_frame_def on_interrupt_message_def barge_in_def enter_def emit_def
      close_turn_def reset_buffer_def handle_interrupt_def Let_def)

theorem barge_in_while_speaking_witness:
  "fsm (run scenario_S3 session_ready) = SPEAKING
   \<and> fsm (step (audio_frame True) (run scenario_S3 session_ready)) = LISTENING
   \<and> tts_cancel (step (audio_frame True) (run scenario_S3 session_ready))
   \<and> llm_cancel (step (audio_frame True) (run scenario_S3 session_ready))
   \<and> stt_finalized (step (audio_frame True) (run scenario_S3 session_ready)) = 1
   \<and> closed_turns (step (audio_frame True) (run scenario_S3 session_ready))
       = [\<lparr>turn_id = 0, user_text = ''Hello there'', agent_text = ''Hi!'',
            was_interrupted = True, outcome = interrupted\<rparr>]"
  using barge_in_while_speaking [of "run scenario_S3 session_ready" "audio_frame True" True
      "\<lparr>handler_state = SPEAKING, cancel_event = False, deepgram_client = True,
        finish_utterance_sent = 0\<rparr>"]
  by (simp add: scenario_S3_def run_def session_ready_def on_audio_frame_def on_final_def
      on_llm_sentence_def on_silence_timeout_def on_tts_chunk_def enter_def emit_def
      start_speculation_def complete_text_def Let_def)

lemma committed_on_audio_frame:
  "fsm s \<noteq> COMMITTED \<Longrightarrow> fsm (on_audio_frame a s) \<noteq> COMMITTED"
  by (cases "fsm s")
    (simp_all add: on_audio_frame_def silent_cancel_def barge_in_def enter_def emit_def
      close_turn_def reset_buffer_def Let_def)

lemma committed_on_partial:
  "fsm s \<noteq> COMMITTED \<Longrightarrow> fsm (on_partial text s) \<noteq> COMMITTED"
  by (simp add: on_partial_def set_partial_def silent_cancel_def enter_def emit_def
      close_turn_def Let_def)

lemma committed_on_final:
  "fsm s \<noteq> COMMITTED \<Longrightarrow> fsm (on_final text s) \<noteq> COMMITTED"
  by (simp add: on_final_def silent_cancel_def start_speculation_def enter_def emit_def
      close_turn_def Let_def)

lemma committed_on_interrupt_message:
  "fsm s \<noteq> COMMITTED \<Longrightarrow> fsm (on_interrupt_message s) \<noteq> COMMITTED"
  by (cases "fsm s")
    (simp_all add: on_interrupt_message_def silent_cancel_def barge_in_def enter_def emit_def
      close_turn_def reset_buffer_def Let_def)

lemma committed_on_playback_complete:
  "fsm s \<noteq> COMMITTED \<Longrightarrow> fsm (on_playback_complete s) \<noteq> COMMITTED"
  by (simp add: on_playback_complete_def finish_turn_def enter_def emit_def close_turn_def
      reset_buffer_def Let_def)

lemma committed_on_llm_sentence:
  "fsm s \<noteq> COMMITTED \<Longrightarrow> fsm (on_llm_sentence tid x s) \<noteq> COMMITTED"
  by (cases "fsm s") (simp_all add: on_llm_sentence_def)

lemma committed_on_tts_chunk:
  "fsm s \<noteq> COMMITTED \<Longrightarrow> fsm (on_tts_chunk tid a f s) \<noteq> COMMITTED"
  by (cases "fsm s") (simp_all add: on_tts_chunk_def enter_def emit_def Let_def)

lemma committed_on_tts_failed:
  "fsm s \<noteq> COMMITTED \<Longrightarrow> fsm (on_tts_failed tid s) \<noteq> COMMITTED"
  by (simp add: on_tts_failed_def)

lemma committed_entry:
  assumes "fsm s \<noteq> COMMITTED" and "fsm (step e s) = COMMITTED"
  shows "e = silence_timeout \<and> fsm s = SPECULATIVE \<and> timer s = running"
proof (cases e)
  case silence_timeout
  with assms show ?thesis
    by (auto simp: on_silence_timeout_def split: if_splits)
qed (use assms committed_on_audio_frame committed_on_partial committed_on_final
      committed_on_interrupt_message committed_on_playback_complete committed_on_llm_sentence
      committed_on_tts_chunk committed_on_tts_failed in auto)

lemma release_on_silence_timeout:
  "fsm s = SPECULATIVE \<Longrightarrow> timer s = running \<Longrightarrow>
     fsm (on_silence_timeout s) = COMMITTED
     \<and> tts_input (on_silence_timeout s) = hold_buffer s
     \<and> hold_buffer (on_silence_timeout s) = []"
  by (simp add: on_silence_timeout_def enter_def emit_def Let_def)

lemma tts_idle_step: "tts_idle s \<Longrightarrow> tts_idle (step e s)"
proof (cases e)
  case (audio_frame a)
  assume "tts_idle s"
  then show ?thesis unfolding audio_frame
    by (cases "fsm s")
      (simp_all add: tts_idle_def on_audio_frame_def silent_cancel_def barge_in_def enter_def
        emit_def close_turn_def reset_buffer_def Let_def)
next
  case (partial t)
  assume "tts_idle s"
  then show ?thesis unfolding partial
    by (simp add: tts_idle_def on_partial_def set_partial_def silent_cancel_def enter_def
        emit_def close_turn_def Let_def)
next
  case (final t)
  assume "tts_idle s"
  then show ?thesis unfolding final
    by (simp add: tts_idle_def on_final_def silent_cancel_def start_speculation_def enter_def
        emit_def close_turn_def Let_def)
next
  case silence_timeout
  assume "tts_idle s"
  then show ?thesis unfolding silence_timeout
    by (simp add: tts_idle_def on_silence_timeout_def enter_def emit_def Let_def)
next
  case interrupt_message
  assume "tts_idle s"
  then show ?thesis unfolding interrupt_message
    by (cases "fsm s")
      (simp_all add: tts_idle_def on_interrupt_message_def silent_cancel_def barge_in_def
        enter_def emit_def close_turn_def reset_buffer_def Let_def)
next
  case playback_complete
  assume "tts_idle s"
  then show ?thesis unfolding playback_complete
    by (simp add: tts_idle_def on_playback_complete_def finish_turn_def enter_def emit_def
        close_turn_def reset_buffer_def Let_def)
next
  case playback_watchdog
  assume "tts_idle s"
  then show ?thesis unfolding playback_watchdog
    by (simp add: tts_idle_def on_playback_complete_def finish_turn_def enter_def emit_def
        close_turn_def reset_buffer_def Let_def)
next
  case (llm_sentence tid x)
  assume "tts_idle s"
  then show ?thesis unfolding llm_sentence
    by (cases "fsm s") (simp_all add: tts_idle_def on_llm_sentence_def)
next
  case (tts_chunk tid a f)
  assume "tts_idle s"
  then show ?thesis unfolding tts_chunk
    by (cases "fsm s") (simp_all add: tts_idle_def on_tts_chunk_def enter_def emit_def Let_def)
next
  case (tts_failure tid)
  assume "tts_idle s"
  then show ?thesis unfolding tts_failure
    by (simp add: tts_idle_def on_tts_failed_def enter_def emit_def close_turn_def
        reset_buffer_def Let_def)
qed

lemma tts_idle_run: "tts_idle s \<Longrightarrow> tts_idle (run events s)"
  unfolding run_def by (induction events arbitrary: s) (simp_all add: tts_idle_step)


lemma forward_on_llm_sentence:
  assumes "fsm c = COMMITTED \<or> fsm c = SPEAKING" and "turn_open c" and "\<not> llm_cancel c"
  shows "tts_input (on_llm_sentence (cur_turn_id c) x c) = tts_input c @ [x]
    \<and> fsm (on_llm_sentence (cur_turn_id c) x c) = fsm c
    \<and> turn_open (on_llm_sentence (cur_turn_id c) x c)
    \<and> \<not> llm_cancel (on_llm_sentence (cur_turn_id c) x c)
    \<and> cur_turn_id (on_llm_sentence (cur_turn_id c) x c) = cur_turn_id c"
  using assms by (auto simp: on_llm_sentence_def)

lemma forward_sentences:
  assumes "fsm c = COMMITTED \<or> fsm c = SPEAKING" and "turn_open c" and "\<not> llm_cancel c"
  shows "tts_input (fold step (map (llm_sentence (cur_turn_id c)) xs) c) = tts_input c @ xs"
  using assms
proof (induction xs arbitrary: c)
  case Nil
  then show ?case by simp
next
  case (Cons x xs)
  note f = forward_on_llm_sentence [OF Cons.prems, of x]
  have "tts_input (fold step (map (llm_sentence (cur_turn_id (on_llm_sentence (cur_turn_id c) x c))) xs)
          (on_llm_sentence (cur_turn_id c) x c))
        = tts_input (on_llm_sentence (cur_turn_id c) x c) @ xs"
    using f Cons.prems(1) by (intro Cons.IH) auto
  with f show ?case by simp
qed

text \<open>
  Claim C2. A turn enters COMMITTED only by the silence timeout in SPECULATIVE, and at
  that step the sentences held so far become the input of TTS, the first held sentence
  first, and the hold buffer is empty. From then on, while the turn is open and its LLM
  stream is not canceled, every sentence the LLM delivers is added to the input of TTS at
  the step that delivers it: the controller has no event for the end of the LLM stream
  and waits for none. Before the entry nothing has been handed to TTS: in every session
  the controller can reach, the input of TTS is empty in SPECULATIVE.
\<close>

theorem sentences_pipelined_to_tts:
  "(fsm s \<noteq> COMMITTED \<and> fsm (step e s) = COMMITTED \<longrightarrow>
      e = silence_timeout \<and> fsm s = SPECULATIVE
      \<and> tts_input (step e s) = hold_buffer s \<and> hold_buffer (step e s) = [])
   \<and> ((fsm c = COMMITTED \<or> fsm c = SPEAKING) \<and> turn_open c \<and> \<not> llm_cancel c \<longrightarrow>
      tts_input (run (map (llm_sentence (cur_turn_id c)) sentences) c)
        = tts_input c @ sentences)
   \<and> (fsm (run events session_ready) = SPECULATIVE \<longrightarrow>
      tts_input (run events session_ready) = [])"
proof -
  have entry: "e = silence_timeout \<and> fsm s = SPECULATIVE
      \<and> tts_input (step e s) = hold_buffer s \<and> hold_buffer (step e s) = []"
    if "fsm s \<noteq> COMMITTED" "fsm (step e s) = COMMITTED"
    using committed_entry [OF that] release_on_silence_timeout [of s] by simp
  have "tts_idle session_ready"
    by (simp add: tts_idle_def session_ready_def)
  then have "tts_idle (run events session_ready)"
    by (rule tts_idle_run)
  then have quiet: "fsm (run events session_ready) = SPECULATIVE \<longrightarrow>
      tts_input (run events session_ready) = []"
    by (simp add: tts_idle_def)
  show ?thesis
    using entry quiet forward_sentences [of c sentences] by (simp add: run_def)
qed

theorem sentences_pipelined_to_tts_witness:
  "fsm (run scenario_held session_ready) = SPECULATIVE
   \<and> hold_buffer (run scenario_held session_ready) = [''Hi!'']
   \<and> tts_input (run scenario_held session_ready) = []
   \<and> fsm (step silence_timeout (run scenario_held session_ready)) = COMMITTED
   \<and> tts_input (step silence_timeout (run scenario_held session_ready)) = [''Hi!'']
   \<and> tts_input (run [llm_sentence 0 '' How can I help?'']
        (step silence_timeout (run scenario_held session_ready)))
       = [''Hi!'', '' How can I help?'']"
  using sentences_pipelined_to_tts [of "run scenario_held session_ready" silence_timeout
      "step silence_timeout (run scenario_held session_ready)" "['' How can I help?'']"
      scenario_held]
  by (simp add: scenario_held_def run_def session_ready_def on_audio_frame_def on_final_def
      on_llm_sentence_def on_silence_timeout_def enter_def emit_def
      start_speculation_def complete_text_def Let_def)

end
